theory Spec2Isabelle
  imports Complex_Main "HOL-Library.AList"
begin

section \<open>JavaScript values used by the pipeline\<close>

text \<open>
  A JavaScript number is an IEEE-754 double: NaN, one of the two infinities, or a finite
  value, which is kept as the rational number it stands for. An arithmetic operation
  computes the exact result and rounds it to the nearest double, ties going to the even
  significand; a result beyond the largest double becomes an infinity. The sign of zero
  is not modelled.
\<close>

datatype jsnum = NaN | PosInf | NegInf | Fin rat

text \<open>The number of binary digits of a positive integer.\<close>

function bitlen :: "int \<Rightarrow> int" where
  "bitlen n = (if n \<le> 0 then 0 else 1 + bitlen (n div 2))"
  by pat_completeness auto
termination
  by (relation "measure nat") auto

declare bitlen.simps [simp del]

definition pow2 :: "int \<Rightarrow> rat" where
  "pow2 k = (if 0 \<le> k then 2 ^ nat k else 1 / 2 ^ nat (- k))"

text \<open>The binary exponent of a positive rational: \<open>2^e \<le> a < 2^(e+1)\<close>.\<close>

definition ilog2 :: "rat \<Rightarrow> int" where
  "ilog2 a =
     (if 1 \<le> a then bitlen \<lfloor>a\<rfloor> - 1
      else let b = bitlen \<lfloor>1 / a\<rfloor>
           in if a = pow2 (1 - b) then 1 - b else - b)"

definition roundHalfEven :: "rat \<Rightarrow> int" where
  "roundHalfEven x =
     (let f = \<lfloor>x\<rfloor>; d = x - of_int f
      in if d < 1 / 2 then f
         else if 1 / 2 < d then f + 1
         else if even f then f else f + 1)"

text \<open>
  Rounding to the nearest double. The spacing of the doubles around \<open>a\<close> is
  \<open>2^(e - 52)\<close> for the exponent \<open>e\<close> of \<open>a\<close>, and \<open>2^(-1074)\<close> below the smallest
  normal number; a significand that reaches \<open>2^53\<close> at the exponent 1023 is beyond the
  largest double.
\<close>

definition roundDouble :: "rat \<Rightarrow> jsnum" where
  "roundDouble q =
     (if q = 0 then Fin 0
      else let a = \<bar>q\<bar>; e = ilog2 a
           in if 1024 \<le> e then (if 0 < q then PosInf else NegInf)
              else let u = pow2 (max e (- 1022) - 52); m = roundHalfEven (a / u)
                   in if e = 1023 \<and> 9007199254740992 \<le> m
                      then (if 0 < q then PosInf else NegInf)
                      else Fin (sgn q * (of_int m * u)))"

text \<open>
  The same rounding on a numerator and a positive denominator, in integer arithmetic; it
  is what an evaluation of \<open>roundDouble\<close> runs.
\<close>

definition ilog2Q :: "int \<Rightarrow> int \<Rightarrow> int" where
  "ilog2Q n d =
     (if d \<le> n then bitlen (n div d) - 1
      else let b = bitlen (d div n)
           in if n * 2 ^ nat (b - 1) = d then 1 - b else - b)"

definition roundHalfEvenQ :: "int \<Rightarrow> int \<Rightarrow> int" where
  "roundHalfEvenQ n d =
     (let f = n div d; r = n mod d
      in if 2 * r < d then f
         else if d < 2 * r then f + 1
         else if even f then f else f + 1)"

definition roundDoubleQ :: "int \<Rightarrow> int \<Rightarrow> jsnum" where
  "roundDoubleQ n d =
     (if n = 0 then Fin 0
      else let e = ilog2Q \<bar>n\<bar> d
           in if 1024 \<le> e then (if 0 < n then PosInf else NegInf)
              else let s = max e (- 1022) - 52;
                       m = (if 0 \<le> s then roundHalfEvenQ \<bar>n\<bar> (d * 2 ^ nat s)
                            else roundHalfEvenQ (\<bar>n\<bar> * 2 ^ nat (- s)) d)
                   in if e = 1023 \<and> 9007199254740992 \<le> m
                      then (if 0 < n then PosInf else NegInf)
                      else Fin (if 0 \<le> s then of_int (sgn n * m * 2 ^ nat s)
                                else Fract (sgn n * m) (2 ^ nat (- s))))"

fun jsadd :: "jsnum \<Rightarrow> jsnum \<Rightarrow> jsnum" where
  "jsadd NaN _ = NaN"
| "jsadd _ NaN = NaN"
| "jsadd PosInf NegInf = NaN"
| "jsadd NegInf PosInf = NaN"
| "jsadd PosInf _ = PosInf"
| "jsadd _ PosInf = PosInf"
| "jsadd NegInf _ = NegInf"
| "jsadd _ NegInf = NegInf"
| "jsadd (Fin a) (Fin b) = roundDouble (a + b)"

fun jsmul :: "jsnum \<Rightarrow> jsnum \<Rightarrow> jsnum" where
  "jsmul NaN _ = NaN"
| "jsmul _ NaN = NaN"
| "jsmul PosInf PosInf = PosInf"
| "jsmul PosInf NegInf = NegInf"
| "jsmul NegInf PosInf = NegInf"
| "jsmul NegInf NegInf = PosInf"
| "jsmul PosInf (Fin b) = (if b = 0 then NaN else if 0 < b then PosInf else NegInf)"
| "jsmul NegInf (Fin b) = (if b = 0 then NaN else if 0 < b then NegInf else PosInf)"
| "jsmul (Fin a) PosInf = (if a = 0 then NaN else if 0 < a then PosInf else NegInf)"
| "jsmul (Fin a) NegInf = (if a = 0 then NaN else if 0 < a then NegInf else PosInf)"
| "jsmul (Fin a) (Fin b) = roundDouble (a * b)"

fun jsdiv :: "jsnum \<Rightarrow> jsnum \<Rightarrow> jsnum" where
  "jsdiv NaN _ = NaN"
| "jsdiv _ NaN = NaN"
| "jsdiv PosInf PosInf = NaN"
| "jsdiv PosInf NegInf = NaN"
| "jsdiv NegInf PosInf = NaN"
| "jsdiv NegInf NegInf = NaN"
| "jsdiv PosInf (Fin b) = (if 0 \<le> b then PosInf else NegInf)"
| "jsdiv NegInf (Fin b) = (if 0 \<le> b then NegInf else PosInf)"
| "jsdiv (Fin a) PosInf = Fin 0"
| "jsdiv (Fin a) NegInf = Fin 0"
| "jsdiv (Fin a) (Fin b) =
     (if b = 0 then (if a = 0 then NaN else if 0 < a then PosInf else NegInf)
      else roundDouble (a / b))"

text \<open>The relational operators: every comparison with NaN is false.\<close>

fun jslt :: "jsnum \<Rightarrow> jsnum \<Rightarrow> bool" where
  "jslt NaN _ = False"
| "jslt _ NaN = False"
| "jslt PosInf _ = False"
| "jslt _ NegInf = False"
| "jslt NegInf _ = True"
| "jslt _ PosInf = True"
| "jslt (Fin a) (Fin b) = (a < b)"

definition jsgt :: "jsnum \<Rightarrow> jsnum \<Rightarrow> bool" where
  "jsgt a b = jslt b a"

definition jsle :: "jsnum \<Rightarrow> jsnum \<Rightarrow> bool" where
  "jsle a b = (a \<noteq> NaN \<and> b \<noteq> NaN \<and> \<not> jslt b a)"

definition jsge :: "jsnum \<Rightarrow> jsnum \<Rightarrow> bool" where
  "jsge a b = jsle b a"

text \<open>
  \<open>Math.round\<close>: the nearest integer, halves going up; NaN and the infinities stay. The
  result is exact: the nearest integer of a double is a double.
\<close>

fun mathRound :: "jsnum \<Rightarrow> jsnum" where
  "mathRound (Fin a) = Fin (of_int \<lfloor>a + 1 / 2\<rfloor>)"
| "mathRound n = n"

text \<open>
  The values a cell or a property can hold: the scalars a CSV or spreadsheet reader and
  \<open>JSON.parse\<close> deliver, and \<open>Obj\<close> for a function or a plain object, which is truthy
  and whose string form is never a numeric literal (the members every object inherits
  from \<open>Object.prototype\<close>, and a nested object such as the \<open>metals\<close> field). Arrays
  and objects with a \<open>toString\<close> of their own are outside the model.
  Strings are lists of code units below 256.
\<close>

datatype jsval = Undefined | Null | Bool bool | Num jsnum | Str string | Obj

fun truthy :: "jsval \<Rightarrow> bool" where
  "truthy Undefined = False"
| "truthy Null = False"
| "truthy (Bool b) = b"
| "truthy (Num n) = (n \<noteq> NaN \<and> n \<noteq> Fin 0)"
| "truthy (Str s) = (s \<noteq> [])"
| "truthy Obj = True"

text \<open>
  An object is the list of its own enumerable properties, in the order \<open>Object.keys\<close>
  reports them. A property read that finds no own property continues in
  \<open>Object.prototype\<close>, whose members are functions (and, for \<open>__proto__\<close>, the
  prototype itself).
\<close>

type_synonym jsobj = "(string \<times> jsval) list"

definition objectPrototypeKeys :: "string list" where
  "objectPrototypeKeys =
     [''constructor'', ''hasOwnProperty'', ''isPrototypeOf'', ''propertyIsEnumerable'',
      ''toLocaleString'', ''toString'', ''valueOf'', ''__proto__'',
      ''__defineGetter__'', ''__defineSetter__'', ''__lookupGetter__'', ''__lookupSetter__'']"

definition hasOwn :: "jsobj \<Rightarrow> string \<Rightarrow> bool" where
  "hasOwn obj k = (map_of obj k \<noteq> None)"

definition hasProp :: "jsobj \<Rightarrow> string \<Rightarrow> bool" where
  "hasProp obj k = (hasOwn obj k \<or> k \<in> set objectPrototypeKeys)"

definition getProp :: "jsobj \<Rightarrow> string \<Rightarrow> jsval" where
  "getProp obj k =
     (case map_of obj k of
        Some v \<Rightarrow> v
      | None \<Rightarrow> if k \<in> set objectPrototypeKeys then Obj else Undefined)"

section \<open>Strings and the conversion of a string to a number\<close>

definition isWhiteSpace :: "char \<Rightarrow> bool" where
  "isWhiteSpace c = (c \<in> set [CHR 0x09, CHR 0x0A, CHR 0x0B, CHR 0x0C, CHR 0x0D, CHR 0x20, CHR 0xA0])"

definition trim :: "string \<Rightarrow> string" where
  "trim s = rev (dropWhile isWhiteSpace (rev (dropWhile isWhiteSpace s)))"

definition toLowerCaseChar :: "char \<Rightarrow> char" where
  "toLowerCaseChar c =
     (let n = (of_char c :: nat)
      in if (65 \<le> n \<and> n \<le> 90) \<or> (192 \<le> n \<and> n \<le> 222 \<and> n \<noteq> 215)
         then char_of (n + 32) else c)"

definition toLowerCase :: "string \<Rightarrow> string" where
  "toLowerCase s = map toLowerCaseChar s"

definition hexDigitVal :: "char \<Rightarrow> int option" where
  "hexDigitVal c =
     map_of (zip ''0123456789abcdefABCDEF''
                 [0, 1, 2, 3, 4, 5, 6, 7, 8, 9, 10, 11, 12, 13, 14, 15, 10, 11, 12, 13, 14, 15]) c"

definition digitVal :: "int \<Rightarrow> char \<Rightarrow> int option" where
  "digitVal base c =
     (case hexDigitVal c of
        None \<Rightarrow> None
      | Some d \<Rightarrow> if d < base then Some d else None)"

definition isDigit :: "char \<Rightarrow> bool" where
  "isDigit c = (digitVal 10 c \<noteq> None)"

text \<open>The value of a non-empty run of digits in a base; \<open>None\<close> when a character is no digit.\<close>

fun digitsAcc :: "int \<Rightarrow> int \<Rightarrow> string \<Rightarrow> int option" where
  "digitsAcc base acc [] = Some acc"
| "digitsAcc base acc (c # cs) =
     (case digitVal base c of
        None \<Rightarrow> None
      | Some d \<Rightarrow> digitsAcc base (base * acc + d) cs)"

definition digits :: "int \<Rightarrow> string \<Rightarrow> int option" where
  "digits base s = (if s = [] then None else digitsAcc base 0 s)"

text \<open>\<open>0x\<close>, \<open>0o\<close> and \<open>0b\<close> literals (no sign allowed).\<close>

fun nonDecimalLiteral :: "string \<Rightarrow> int option" where
  "nonDecimalLiteral (z # p # ds) =
     (if z \<noteq> CHR ''0'' then None
      else if p = CHR ''x'' \<or> p = CHR ''X'' then digits 16 ds
      else if p = CHR ''o'' \<or> p = CHR ''O'' then digits 8 ds
      else if p = CHR ''b'' \<or> p = CHR ''B'' then digits 2 ds
      else None)"
| "nonDecimalLiteral _ = None"

text \<open>The exponent part after \<open>e\<close> or \<open>E\<close>: an optional sign and at least one digit.\<close>

fun signedInteger :: "string \<Rightarrow> int option" where
  "signedInteger (c # cs) =
     (if c = CHR ''+'' then digits 10 cs
      else if c = CHR ''-'' then map_option uminus (digits 10 cs)
      else digits 10 (c # cs))"
| "signedInteger [] = None"

text \<open>
  The mantissa: digits, optionally a point and more digits, with a digit on at least one
  side of the point.
\<close>

definition mantissa :: "string \<Rightarrow> rat option" where
  "mantissa s =
     (let ip = takeWhile isDigit s; rest = dropWhile isDigit s
      in case rest of
           [] \<Rightarrow> map_option of_int (digits 10 ip)
         | c # fr \<Rightarrow>
             if c \<noteq> CHR ''.'' \<or> (ip = [] \<and> fr = []) then None
             else (case (digitsAcc 10 0 ip, digitsAcc 10 0 fr) of
                     (Some i, Some f) \<Rightarrow> Some (of_int i + of_int f / 10 ^ length fr)
                   | _ \<Rightarrow> None))"

definition isExponentIndicator :: "char \<Rightarrow> bool" where
  "isExponentIndicator c = (c = CHR ''e'' \<or> c = CHR ''E'')"

definition strUnsignedDecimalLiteral :: "string \<Rightarrow> jsnum" where
  "strUnsignedDecimalLiteral s =
     (if s = ''Infinity'' then PosInf
      else let m = takeWhile (\<lambda>c. \<not> isExponentIndicator c) s;
               ex = dropWhile (\<lambda>c. \<not> isExponentIndicator c) s
           in case mantissa m of
                None \<Rightarrow> NaN
              | Some q \<Rightarrow>
                  (case ex of
                     [] \<Rightarrow> roundDouble q
                   | _ # e \<Rightarrow>
                       (case signedInteger e of
                          None \<Rightarrow> NaN
                        | Some k \<Rightarrow>
                            roundDouble (if 0 \<le> k then q * 10 ^ nat k else q / 10 ^ nat (- k)))))"

fun jsneg :: "jsnum \<Rightarrow> jsnum" where
  "jsneg NaN = NaN"
| "jsneg PosInf = NegInf"
| "jsneg NegInf = PosInf"
| "jsneg (Fin a) = Fin (- a)"

text \<open>
  \<open>Number(s)\<close> for a string: white space around the literal is ignored, the empty
  string is 0, anything that is no numeric literal is NaN, and the value of a literal is
  rounded to the nearest double.
\<close>

definition StringToNumber :: "string \<Rightarrow> jsnum" where
  "StringToNumber s =
     (let t = trim s
      in if t = [] then Fin 0
         else case nonDecimalLiteral t of
                Some n \<Rightarrow> roundDouble (of_int n)
              | None \<Rightarrow>
                  (case t of
                     c # u \<Rightarrow>
                       if c = CHR ''+'' then strUnsignedDecimalLiteral u
                       else if c = CHR ''-'' then jsneg (strUnsignedDecimalLiteral u)
                       else strUnsignedDecimalLiteral t
                   | [] \<Rightarrow> Fin 0))"

text \<open>
  \<open>Number(String(v).trim())\<close>. For a number the text that \<open>String\<close> produces reads back
  as the same number (the digits ECMAScript prints identify the value, and \<open>NaN\<close> and
  \<open>Infinity\<close> are printed by name), so the conversion returns it unchanged.
\<close>

fun numberOfTrimmedString :: "jsval \<Rightarrow> jsnum" where
  "numberOfTrimmedString Undefined = StringToNumber (trim ''undefined'')"
| "numberOfTrimmedString Null = StringToNumber (trim ''null'')"
| "numberOfTrimmedString (Bool b) = StringToNumber (trim (if b then ''true'' else ''false''))"
| "numberOfTrimmedString (Num n) = n"
| "numberOfTrimmedString (Str s) = StringToNumber (trim s)"
| "numberOfTrimmedString Obj = NaN"

text \<open>\<open>ToNumber\<close>, the conversion an arithmetic operator applies to an operand.\<close>

fun ToNumber :: "jsval \<Rightarrow> jsnum" where
  "ToNumber Undefined = NaN"
| "ToNumber Null = Fin 0"
| "ToNumber (Bool b) = Fin (if b then 1 else 0)"
| "ToNumber (Num n) = n"
| "ToNumber (Str s) = StringToNumber s"
| "ToNumber Obj = NaN"

section \<open>Helpers of the calculation module\<close>

definition parseNumber :: "jsval \<Rightarrow> jsnum option" where
  "parseNumber v =
     (if v = Undefined \<or> v = Null \<or> v = Str [] then None
      else let n = numberOfTrimmedString v
           in if n = NaN then None else Some n)"

fun pickNumber :: "jsobj \<Rightarrow> string list \<Rightarrow> jsnum option" where
  "pickNumber sample [] = None"
| "pickNumber sample (key # keys) =
     (if hasProp sample key
      then (case parseNumber (getProp sample key) of
              Some val \<Rightarrow> Some val
            | None \<Rightarrow> pickNumber sample keys)
      else pickNumber sample keys)"

section \<open>The calculation module\<close>

text \<open>
  The table of permissible limits. It is a plain object, so a lookup goes through
  \<open>getProp\<close> like any other property read. A numeric literal of the source stands for
  the double nearest to its decimal value.
\<close>

definition WHO_STANDARDS :: jsobj where
  "WHO_STANDARDS =
     [(''As'', Num (roundDouble (1 / 100))),
      (''Cd'', Num (roundDouble (3 / 1000))),
      (''Cr'', Num (roundDouble (5 / 100))),
      (''Cu'', Num (roundDouble 2)),
      (''Fe'', Num (roundDouble (3 / 10))),
      (''Pb'', Num (roundDouble (1 / 100))),
      (''Mn'', Num (roundDouble (4 / 10))),
      (''Ni'', Num (roundDouble (7 / 100))),
      (''Zn'', Num (roundDouble 3)),
      (''Hg'', Num (roundDouble (6 / 1000)))]"

text \<open>\<open>parseNumber(sample[metal]) || 0\<close>: an absent result, NaN and 0 are falsy.\<close>

definition concentrationOf :: "jsobj \<Rightarrow> string \<Rightarrow> jsnum" where
  "concentrationOf sample metal =
     (case parseNumber (getProp sample metal) of
        None \<Rightarrow> Fin 0
      | Some n \<Rightarrow> if n = NaN \<or> n = Fin 0 then Fin 0 else n)"

text \<open>
  \<open>WHO_STANDARDS[metal] || 1\<close>, as the operand of the divisions that follow: the
  value read when it is truthy, else 1, converted to a number by the division.
\<close>

definition standardOf :: "string \<Rightarrow> jsnum" where
  "standardOf metal =
     (let v = getProp WHO_STANDARDS metal
      in ToNumber (if truthy v then v else Num (Fin 1)))"

definition hpiStep :: "jsobj \<Rightarrow> string \<Rightarrow> jsnum \<times> jsnum \<Rightarrow> jsnum \<times> jsnum" where
  "hpiStep sample metal acc =
     (let concentration = concentrationOf sample metal;
          standard = standardOf metal;
          weight = jsdiv (Fin 1) standard;
          subIndex = jsmul (jsdiv concentration standard) (Fin 100)
      in (jsadd (fst acc) (jsmul weight subIndex), jsadd (snd acc) weight))"

definition calculateHPI :: "jsobj \<Rightarrow> string list \<Rightarrow> jsnum" where
  "calculateHPI sample metals =
     (let acc = fold (hpiStep sample) metals (Fin 0, Fin 0);
          weightedSum = fst acc;
          totalWeight = snd acc
      in if jsgt totalWeight (Fin 0) then jsdiv weightedSum totalWeight else Fin 0)"

definition calculateHEI :: "jsobj \<Rightarrow> string list \<Rightarrow> jsnum" where
  "calculateHEI sample metals =
     fold (\<lambda>metal sum.
             let concentration = concentrationOf sample metal;
                 standard = standardOf metal
             in jsadd sum (jsdiv concentration standard))
          metals (Fin 0)"

definition calculateCd :: "jsobj \<Rightarrow> string list \<Rightarrow> jsnum" where
  "calculateCd sample metals =
     fold (\<lambda>metal sum.
             let concentration = concentrationOf sample metal;
                 standard = standardOf metal
             in jsadd sum (jsdiv concentration standard))
          metals (Fin 0)"

datatype Category = Safe | SlightlyPolluted | Hazardous

definition categorizeWaterQuality :: "jsnum \<Rightarrow> Category" where
  "categorizeWaterQuality h =
     (if jslt h (Fin 100) then Safe
      else if jslt h (Fin 200) then SlightlyPolluted
      else Hazardous)"

record CalculationResult =
  idR :: string
  latitude :: "jsnum option"
  longitude :: "jsnum option"
  hpi :: jsnum
  hei :: jsnum
  cd :: jsnum
  category :: Category
  metals :: "(string \<times> jsnum) list"

text \<open>The decimal digits of a natural number, for the positional placeholders.\<close>

fun showNat :: "nat \<Rightarrow> string" where
  "showNat n =
     (if n < 10 then [''0123456789'' ! n]
      else showNat (n div 10) @ [''0123456789'' ! (n mod 10)])"

declare showNat.simps [simp del]

text \<open>
  \<open>Number.prototype.toString\<close> on a number whose value is an integer (of magnitude
  below \<open>10^21\<close>), on NaN and on the infinities. The digits printed for other finite
  values (the shortest decimal that reads back as the same double) are not modelled: the
  batch processor below takes the conversion as a parameter.
\<close>

fun integerToString :: "jsnum \<Rightarrow> string" where
  "integerToString NaN = ''NaN''"
| "integerToString PosInf = ''Infinity''"
| "integerToString NegInf = ''-Infinity''"
| "integerToString (Fin q) =
     (if q < 0 then ''-'' @ showNat (nat \<lfloor>- q\<rfloor>) else showNat (nat \<lfloor>q\<rfloor>))"

text \<open>
  \<open>sample.id?.toString()\<close>: absent for \<open>undefined\<close> and \<open>null\<close>, else the text of
  the value.
\<close>

fun idToString :: "(jsnum \<Rightarrow> string) \<Rightarrow> jsval \<Rightarrow> string option" where
  "idToString numberToString Undefined = None"
| "idToString numberToString Null = None"
| "idToString numberToString (Bool b) = Some (if b then ''true'' else ''false'')"
| "idToString numberToString (Num n) = Some (numberToString n)"
| "idToString numberToString (Str s) = Some s"
| "idToString numberToString Obj = Some ''[object Object]''"

definition exclude :: "string list" where
  "exclude =
     map toLowerCase
       [''id'', ''latitude'', ''longitude'', ''lat'', ''lon'', ''lng'', ''Latitude'', ''Longitude'']"

definition metalColumns :: "jsobj \<Rightarrow> string list" where
  "metalColumns firstSample =
     filter (\<lambda>key. toLowerCase key \<notin> set exclude) (map fst firstSample)"

definition round2 :: "jsnum \<Rightarrow> jsnum" where
  "round2 x = jsdiv (mathRound (jsmul x (Fin 100))) (Fin 100)"

text \<open>
  \<open>metals[metal] = value\<close> on the object that collects the concentrations of a row. A
  number assigned under the name \<open>__proto__\<close> goes to the setter the object inherits,
  which ignores it; any other name becomes a property of the object.
\<close>

definition setMetal :: "string \<Rightarrow> jsnum \<Rightarrow> (string \<times> jsnum) list \<Rightarrow> (string \<times> jsnum) list" where
  "setMetal metal v m = (if metal = ''__proto__'' then m else AList.update metal v m)"

definition processSample ::
  "(jsnum \<Rightarrow> string) \<Rightarrow> string list \<Rightarrow> jsobj \<Rightarrow> nat \<Rightarrow> CalculationResult" where
  "processSample numberToString cols sample index =
     (let h = calculateHPI sample cols;
          e = calculateHEI sample cols;
          c = calculateCd sample cols;
          cat = categorizeWaterQuality h;
          ms = fold (\<lambda>metal m. setMetal metal (concentrationOf sample metal) m) cols []
      in \<lparr> idR = (case idToString numberToString (getProp sample ''id'') of
                    None \<Rightarrow> ''Sample '' @ showNat (index + 1)
                  | Some s \<Rightarrow> if s = [] then ''Sample '' @ showNat (index + 1) else s),
            latitude = pickNumber sample [''latitude'', ''Latitude'', ''lat''],
            longitude = pickNumber sample [''longitude'', ''Longitude'', ''lon'', ''lng''],
            hpi = round2 h,
            hei = round2 e,
            cd = round2 c,
            category = cat,
            metals = ms \<rparr>)"

text \<open>
  The batch processor. The metal columns are read from the first row before the rows are
  mapped; \<open>processSample\<close> is the body of the mapping.
\<close>

definition processWaterSamples ::
  "(jsnum \<Rightarrow> string) \<Rightarrow> jsobj list \<Rightarrow> CalculationResult list" where
  "processWaterSamples numberToString samples =
     (if samples = [] then []
      else let firstSample = samples ! 0;
               cols = metalColumns firstSample
           in map (\<lambda>(sample, index). processSample numberToString cols sample index)
                  (zip samples [0 ..< length samples]))"

section \<open>The results page: normalizing and filtering stored results\<close>

definition latKeys :: "string list" where
  "latKeys = [''latitude'', ''Latitude'', ''lat'', ''Lat'']"

definition lonKeys :: "string list" where
  "lonKeys = [''longitude'', ''Longitude'', ''lon'', ''lng'', ''Lon'', ''Lng'']"

text \<open>
  The page's own \<open>pickNumber\<close> (it looks at own properties only and returns \<open>null\<close>,
  here \<open>None\<close>, when no key gives a number) and its twin \<open>pickNumericAlt\<close>.
\<close>

fun pickNumber_results :: "jsobj \<Rightarrow> string list \<Rightarrow> jsnum option" where
  "pickNumber_results obj [] = None"
| "pickNumber_results obj (k # keys) =
     (if hasOwn obj k
      then (let v = getProp obj k
            in if v = Undefined \<or> v = Null \<or> v = Str [] then pickNumber_results obj keys
               else let n = numberOfTrimmedString v
                    in if n \<noteq> NaN then Some n else pickNumber_results obj keys)
      else pickNumber_results obj keys)"

fun pickNumericAlt :: "jsobj \<Rightarrow> string list \<Rightarrow> jsnum option" where
  "pickNumericAlt obj [] = None"
| "pickNumericAlt obj (k # possibilities) =
     (if hasOwn obj k
      then (let v = getProp obj k
            in if v = Undefined \<or> v = Null \<or> v = Str [] then pickNumericAlt obj possibilities
               else let n = numberOfTrimmedString v
                    in if n \<noteq> NaN then Some n else pickNumericAlt obj possibilities)
      else pickNumericAlt obj possibilities)"

text \<open>\<open>a ?? b ?? ... ?? d\<close>: the first operand that is neither \<open>undefined\<close> nor \<open>null\<close>.\<close>

fun nullish :: "jsval list \<Rightarrow> jsval \<Rightarrow> jsval" where
  "nullish [] d = d"
| "nullish (v # vs) d = (if v = Undefined \<or> v = Null then nullish vs d else v)"

definition numberOrNull :: "jsnum option \<Rightarrow> jsval" where
  "numberOrNull x = (case x of None \<Rightarrow> Null | Some n \<Rightarrow> Num n)"

text \<open>
  One step of the mapping in \<open>normalizeResults\<close>. The object literal spreads the stored
  record and then sets the seven resolved fields: a field the record has keeps its place,
  a new one is appended, which is what \<open>AList.update\<close> does.
\<close>

definition normalizeRecord :: "jsobj \<Rightarrow> nat \<Rightarrow> jsobj" where
  "normalizeRecord r idx =
     (let lat = pickNumber_results r latKeys;
          lon = pickNumber_results r lonKeys;
          h = pickNumericAlt r [''hpi'', ''HPI'', ''hpi_value'', ''hpiValue'', ''hpi_val''];
          e = pickNumericAlt r [''hei'', ''HEI'', ''hei_value'', ''heiValue''];
          c = pickNumericAlt r [''cd'', ''Cd'', ''contamination_degree'', ''contaminationDegree''];
          i = nullish [getProp r ''id'', getProp r ''sample_id'', getProp r ''SampleID'',
                       getProp r ''Location'']
                (Str (''sample-'' @ showNat (idx + 1)));
          cat = nullish [getProp r ''category'', getProp r ''Category'', getProp r ''status'']
                  (Str ''Unknown'')
      in AList.update ''category'' cat
           (AList.update ''cd'' (numberOrNull c)
              (AList.update ''hei'' (numberOrNull e)
                 (AList.update ''hpi'' (numberOrNull h)
                    (AList.update ''longitude'' (numberOrNull lon)
                       (AList.update ''latitude'' (numberOrNull lat)
                          (AList.update ''id'' i r)))))))"

text \<open>
  An element of the stored array is a record or \<open>null\<close>. (An element that is a number,
  a boolean, a string or an array is read through its own enumerable properties, like a
  record.) The mapping reads \<open>r.id\<close>, which raises a TypeError when \<open>r\<close> is
  \<open>null\<close>; the mapping then yields no list. \<open>normalizeFrom idx\<close> maps the elements
  from index \<open>idx\<close> on.
\<close>

datatype element = NullElement | Record jsobj

datatype jsError = TypeError

fun normalizeFrom :: "nat \<Rightarrow> element list \<Rightarrow> jsError + jsobj list" where
  "normalizeFrom idx [] = Inr []"
| "normalizeFrom idx (NullElement # raw) = Inl TypeError"
| "normalizeFrom idx (Record r # raw) =
     (case normalizeFrom (idx + 1) raw of
        Inl err \<Rightarrow> Inl err
      | Inr rs \<Rightarrow> Inr (normalizeRecord r idx # rs))"

definition normalizeResults :: "element list \<Rightarrow> jsError + jsobj list" where
  "normalizeResults raw = normalizeFrom 0 raw"

fun typeofNumber :: "jsval \<Rightarrow> bool" where
  "typeofNumber (Num n) = True"
| "typeofNumber _ = False"

definition keep :: "jsobj \<Rightarrow> bool" where
  "keep r =
     (truthy (getProp r ''id'') \<and>
      ((typeofNumber (getProp r ''latitude'') \<and> typeofNumber (getProp r ''longitude'')) \<or>
       typeofNumber (getProp r ''hpi'') \<or>
       typeofNumber (getProp r ''hei'') \<or>
       typeofNumber (getProp r ''cd'')))"

text \<open>
  What the page does with the parsed content of the store: for anything but an array it
  raises an error itself; an array is normalized and filtered. Every error raised on the
  way is caught and reported as corrupt data.
\<close>

datatype stored = NotAnArray | Array "element list"

datatype loadError = CorruptData

definition loadResults :: "stored \<Rightarrow> loadError + jsobj list" where
  "loadResults parsed =
     (case parsed of
        NotAnArray \<Rightarrow> Inl CorruptData
      | Array raw \<Rightarrow>
          (case normalizeResults raw of
             Inl err \<Rightarrow> Inl CorruptData
           | Inr normalized \<Rightarrow> Inr (filter keep normalized)))"

section \<open>Auxiliary notions used to state the properties\<close>

text \<open>
  The weighted index in the words of the specification, next to \<open>calculateHPI\<close>
  above: per metal the concentration is the parsed cell or 0, the limit is the entry of
  the standards table or 1, the weight is \<open>1 / limit\<close> and the sub-index is
  \<open>(concentration / limit) * 100\<close>; the index is the sum of weight times sub-index
  over the sum of the weights, and 0 for an empty column list.
\<close>

definition spec_concentration :: "jsobj \<Rightarrow> string \<Rightarrow> jsnum" where
  "spec_concentration sample metal =
     (case parseNumber (getProp sample metal) of None \<Rightarrow> Fin 0 | Some n \<Rightarrow> n)"

definition spec_limit :: "string \<Rightarrow> jsnum" where
  "spec_limit metal =
     (case map_of WHO_STANDARDS metal of Some (Num l) \<Rightarrow> l | _ \<Rightarrow> Fin 1)"

definition spec_weight :: "string \<Rightarrow> jsnum" where
  "spec_weight metal = jsdiv (Fin 1) (spec_limit metal)"

definition spec_subIndex :: "jsobj \<Rightarrow> string \<Rightarrow> jsnum" where
  "spec_subIndex sample metal =
     jsmul (jsdiv (spec_concentration sample metal) (spec_limit metal)) (Fin 100)"

definition jssum :: "jsnum list \<Rightarrow> jsnum" where
  "jssum xs = foldl jsadd (Fin 0) xs"

definition spec_HPI :: "jsobj \<Rightarrow> string list \<Rightarrow> jsnum" where
  "spec_HPI sample ms =
     (if ms = [] then Fin 0
      else jsdiv (jssum (map (\<lambda>m. jsmul (spec_weight m) (spec_subIndex sample m)) ms))
                 (jssum (map spec_weight ms)))"

text \<open>\<open>x >= c\<close> for a number \<open>x\<close> that is not NaN: at least \<open>c\<close>, or the positive infinity.\<close>

fun notBelow :: "rat \<Rightarrow> jsnum \<Rightarrow> bool" where
  "notBelow c PosInf = True"
| "notBelow c (Fin t) = (c \<le> t)"
| "notBelow c _ = False"

text \<open>The five numeric fields of a normalized record.\<close>

definition numericFields :: "jsobj \<Rightarrow> jsval list" where
  "numericFields r =
     [getProp r ''latitude'', getProp r ''longitude'', getProp r ''hpi'', getProp r ''hei'',
      getProp r ''cd'']"

text \<open>
  The survival condition of the results page, read on the stored record: the resolved id
  is non-empty, and both coordinates resolve to numbers or at least one of the three
  indices does. The page tests the id with \<open>Boolean\<close>: a string id counts as
  non-empty when it is not the empty string (an id that is the number 0 or \<open>false\<close>
  does not pass either).
\<close>

fun resolves :: "jsnum option \<Rightarrow> bool" where
  "resolves None = False"
| "resolves (Some n) = True"

definition survives :: "jsobj \<Rightarrow> nat \<Rightarrow> bool" where
  "survives r idx =
     (truthy (nullish [getProp r ''id'', getProp r ''sample_id'', getProp r ''SampleID'',
                       getProp r ''Location'']
                (Str (''sample-'' @ showNat (idx + 1)))) \<and>
      ((resolves (pickNumber_results r latKeys) \<and> resolves (pickNumber_results r lonKeys)) \<or>
       resolves (pickNumericAlt r [''hpi'', ''HPI'', ''hpi_value'', ''hpiValue'', ''hpi_val'']) \<or>
       resolves (pickNumericAlt r [''hei'', ''HEI'', ''hei_value'', ''heiValue'']) \<or>
       resolves (pickNumericAlt r [''cd'', ''Cd'', ''contamination_degree'',
                                   ''contaminationDegree''])))"

section \<open>Rounding to the nearest double\<close>

lemma pow2_powi: "pow2 k = 2 powi k"
  by (simp add: pow2_def power_int_def inverse_eq_divide power_one_over)

lemma pow2_pos: "0 < pow2 k"
  by (simp add: pow2_powi)

lemma pow2_mono: "j \<le> k \<Longrightarrow> pow2 j \<le> pow2 k"
  by (simp add: pow2_powi power_int_increasing)

lemma pow2_strict_mono: "j < k \<Longrightarrow> pow2 j < pow2 k"
  by (simp add: pow2_powi power_int_strict_increasing)

lemma pow2_add: "pow2 (j + k) = pow2 j * pow2 k"
  by (simp add: pow2_powi power_int_add)

lemma pow2_nat: "0 \<le> k \<Longrightarrow> pow2 k = 2 ^ nat k"
  by (simp add: pow2_def)

lemma bitlen_bounds:
  "0 < n \<Longrightarrow> 1 \<le> bitlen n \<and> 2 ^ nat (bitlen n - 1) \<le> n \<and> n < 2 ^ nat (bitlen n)"
proof (induction n rule: bitlen.induct)
  case (1 n)
  show ?case
  proof (cases "n div 2 = 0")
    case True
    with "1.prems" have n: "n = 1" by presburger
    have "bitlen 1 = 1"
      by (simp add: bitlen.simps [of 1] bitlen.simps [of 0])
    with n show ?thesis by simp
  next
    case False
    with "1.prems" have h: "0 < n div 2" by presburger
    from "1.prems" have nle: "\<not> n \<le> 0" by simp
    note ih = "1.IH" [OF nle h]
    let ?b = "bitlen (n div 2)"
    have b: "bitlen n = 1 + ?b"
      using "1.prems" by (simp add: bitlen.simps [of n])
    from ih have b1: "1 \<le> ?b" by simp
    then have s: "nat ?b = Suc (nat (?b - 1))" by simp
    from ih have lo: "2 ^ nat (?b - 1) \<le> n div 2" and hi: "n div 2 < 2 ^ nat ?b"
      by simp_all
    have "(2::int) ^ nat ?b = 2 * 2 ^ nat (?b - 1)"
      by (simp add: s)
    also have "\<dots> \<le> 2 * (n div 2)" using lo by simp
    also have "\<dots> \<le> n" by presburger
    finally have l: "2 ^ nat ?b \<le> n" .
    have "n div 2 + 1 \<le> 2 ^ nat ?b" using hi by simp
    then have "2 * (n div 2) + 2 \<le> 2 * 2 ^ nat ?b" by simp
    moreover have "n < 2 * (n div 2) + 2" by presburger
    ultimately have u: "n < 2 * 2 ^ nat ?b" by linarith
    have s2: "nat (1 + ?b) = Suc (nat ?b)" using b1 by simp
    show ?thesis
      using b b1 l u by (simp add: s2)
  qed
qed

lemma ilog2_bounds:
  assumes "0 < a"
  shows "pow2 (ilog2 a) \<le> a \<and> a < pow2 (ilog2 a + 1)"
proof (cases "1 \<le> a")
  case True
  then have f: "0 < \<lfloor>a\<rfloor>" by simp
  let ?b = "bitlen \<lfloor>a\<rfloor>"
  from bitlen_bounds [OF f]
  have b1: "1 \<le> ?b" and lo: "2 ^ nat (?b - 1) \<le> \<lfloor>a\<rfloor>" and hi: "\<lfloor>a\<rfloor> < 2 ^ nat ?b"
    by simp_all
  have e: "ilog2 a = ?b - 1" using True by (simp add: ilog2_def)
  have "pow2 (?b - 1) = of_int (2 ^ nat (?b - 1))"
    using b1 by (simp add: pow2_nat)
  also have "\<dots> \<le> of_int \<lfloor>a\<rfloor>" using lo by (simp only: of_int_le_iff)
  also have "\<dots> \<le> a" by simp
  finally have l: "pow2 (?b - 1) \<le> a" .
  have "\<lfloor>a\<rfloor> + 1 \<le> 2 ^ nat ?b" using hi by simp
  then have "(of_int (\<lfloor>a\<rfloor> + 1) :: rat) \<le> of_int (2 ^ nat ?b)"
    by (simp only: of_int_le_iff)
  moreover have "a < of_int (\<lfloor>a\<rfloor> + 1)" by linarith
  ultimately have "a < of_int (2 ^ nat ?b)" by linarith
  moreover have "pow2 ?b = of_int (2 ^ nat ?b)"
    using b1 by (simp add: pow2_nat)
  ultimately have u: "a < pow2 ?b" by simp
  show ?thesis using e l u by simp
next
  case False
  with assms have a1: "a < 1" and inv1: "1 < 1 / a" by (simp_all add: field_simps)
  then have f: "0 < \<lfloor>1 / a\<rfloor>" by simp
  let ?k = "\<lfloor>1 / a\<rfloor>"
  let ?b = "bitlen ?k"
  from bitlen_bounds [OF f]
  have b1: "1 \<le> ?b" and lo: "2 ^ nat (?b - 1) \<le> ?k" and hi: "?k < 2 ^ nat ?b"
    by simp_all
  have "?k + 1 \<le> 2 ^ nat ?b" using hi by simp
  then have "(of_int (?k + 1) :: rat) \<le> of_int (2 ^ nat ?b)"
    by (simp only: of_int_le_iff)
  moreover have "1 / a < of_int (?k + 1)" by linarith
  ultimately have "1 / a < 2 ^ nat ?b" by simp
  then have "1 < a * 2 ^ nat ?b"
    using assms by (simp add: field_simps)
  then have "1 / 2 ^ nat ?b < a"
    by (simp add: field_simps)
  moreover have "pow2 (- ?b) = 1 / 2 ^ nat ?b"
    using b1 by (simp add: pow2_def)
  ultimately have lower: "pow2 (- ?b) < a" by simp
  have "(of_int (2 ^ nat (?b - 1)) :: rat) \<le> of_int ?k"
    using lo by (simp only: of_int_le_iff)
  also have "\<dots> \<le> 1 / a" by simp
  finally have "2 ^ nat (?b - 1) \<le> 1 / a" by simp
  then have "a * 2 ^ nat (?b - 1) \<le> 1"
    using assms by (simp add: field_simps)
  then have "a \<le> 1 / 2 ^ nat (?b - 1)"
    by (simp add: field_simps)
  moreover have "pow2 (1 - ?b) = 1 / 2 ^ nat (?b - 1)"
  proof (cases "?b = 1")
    case True
    then show ?thesis by (simp add: pow2_def)
  next
    case False
    with b1 have "\<not> 0 \<le> 1 - ?b" by simp
    then show ?thesis by (simp add: pow2_def)
  qed
  ultimately have upper: "a \<le> pow2 (1 - ?b)" by simp
  show ?thesis
  proof (cases "a = pow2 (1 - ?b)")
    case True
    then have e: "ilog2 a = 1 - ?b"
      using False by (simp add: ilog2_def Let_def)
    have "pow2 (1 - ?b) < pow2 (1 - ?b + 1)"
      by (rule pow2_strict_mono) simp
    with e True show ?thesis by simp
  next
    case ne: False
    then have e: "ilog2 a = - ?b"
      using False by (simp add: ilog2_def Let_def)
    from ne upper have "a < pow2 (1 - ?b)" by simp
    moreover have "- ?b + 1 = 1 - ?b" by simp
    ultimately show ?thesis using e lower by simp
  qed
qed

lemma ilog2_mono:
  assumes "0 < a" and "a \<le> b"
  shows "ilog2 a \<le> ilog2 b"
proof (rule ccontr)
  assume "\<not> ilog2 a \<le> ilog2 b"
  then have "ilog2 b + 1 \<le> ilog2 a" by simp
  then have "pow2 (ilog2 b + 1) \<le> pow2 (ilog2 a)" by (rule pow2_mono)
  moreover have "pow2 (ilog2 a) \<le> a" using ilog2_bounds [OF assms(1)] by simp
  moreover have "b < pow2 (ilog2 b + 1)" using ilog2_bounds [of b] assms by simp
  ultimately show False using assms(2) by linarith
qed

lemma roundHalfEven_ge:
  assumes "of_int k \<le> x"
  shows "k \<le> roundHalfEven x"
proof -
  from assms have "k \<le> \<lfloor>x\<rfloor>" by (simp add: le_floor_iff)
  moreover have "\<lfloor>x\<rfloor> \<le> roundHalfEven x"
    by (simp add: roundHalfEven_def Let_def)
  ultimately show ?thesis by simp
qed

text \<open>
  Rounding does not go below a double: for a positive normal double \<open>c\<close> and
  \<open>c \<le> x\<close>, the double nearest to \<open>x\<close> is at least \<open>c\<close>, or an infinity.
\<close>

lemma roundDouble_notBelow:
  assumes c: "0 < c" and normal: "- 1022 \<le> ilog2 c"
    and repr: "of_int \<lfloor>c / pow2 (ilog2 c - 52)\<rfloor> = c / pow2 (ilog2 c - 52)"
    and x: "c \<le> x"
  shows "notBelow c (roundDouble x)"
proof -
  from c x have xpos: "0 < x" by simp
  let ?e = "ilog2 x"
  let ?u = "pow2 (?e - 52)"
  let ?m = "roundHalfEven (x / ?u)"
  have ec: "ilog2 c \<le> ?e" using c x by (rule ilog2_mono)
  with normal have en: "max ?e (- 1022) = ?e" by simp
  have upos: "0 < ?u" by (rule pow2_pos)
  have xe: "pow2 ?e \<le> x" using ilog2_bounds [OF xpos] by simp
  have cm: "c \<le> of_int ?m * ?u"
  proof (cases "ilog2 c = ?e")
    case True
    let ?k = "\<lfloor>c / ?u\<rfloor>"
    from repr have k: "of_int ?k = c / ?u" unfolding True .
    have h: "c / ?u \<le> x / ?u" using x upos by (simp add: divide_right_mono)
    have "of_int ?k \<le> x / ?u" by (rule ord_eq_le_trans [OF k h])
    then have "?k \<le> ?m" by (rule roundHalfEven_ge)
    then have "(of_int ?k :: rat) \<le> of_int ?m" by (simp only: of_int_le_iff)
    then have "of_int ?k * ?u \<le> of_int ?m * ?u"
      using upos by (simp add: mult_right_mono)
    moreover have "of_int ?k * ?u = c / ?u * ?u" by (simp only: k)
    moreover have "c / ?u * ?u = c" using upos by simp
    ultimately show ?thesis by simp
  next
    case False
    with ec have lt: "ilog2 c + 1 \<le> ?e" by simp
    have "pow2 ?e = pow2 52 * ?u"
      using pow2_add [of 52 "?e - 52"] by simp
    moreover have "pow2 52 = of_int (2 ^ 52)" by (simp add: pow2_def)
    ultimately have pe: "pow2 ?e = of_int (2 ^ 52) * ?u" by simp
    with xe have "of_int (2 ^ 52) * ?u \<le> x" by simp
    then have "of_int (2 ^ 52) \<le> x / ?u"
      using upos by (simp add: field_simps)
    then have "2 ^ 52 \<le> ?m" by (rule roundHalfEven_ge)
    then have "(of_int (2 ^ 52) :: rat) \<le> of_int ?m" by (simp only: of_int_le_iff)
    then have "of_int (2 ^ 52) * ?u \<le> of_int ?m * ?u"
      using upos by (simp add: mult_right_mono)
    with pe have "pow2 ?e \<le> of_int ?m * ?u" by simp
    moreover have "pow2 (ilog2 c + 1) \<le> pow2 ?e" using lt by (rule pow2_mono)
    moreover have "c < pow2 (ilog2 c + 1)" using ilog2_bounds [OF c] by simp
    ultimately show ?thesis by linarith
  qed
  from xpos have ax: "\<bar>x\<bar> = x" and sx: "sgn x = 1" and x0: "x \<noteq> 0" by simp_all
  show ?thesis
    using cm xpos
    by (simp add: roundDouble_def Let_def ax sx x0 en)
qed

lemma quarter_double:
  "(0::rat) < 1 / 4 \<and> - 1022 \<le> ilog2 (1 / 4) \<and>
   of_int \<lfloor>(1 / 4) / pow2 (ilog2 (1 / 4) - 52)\<rfloor> = (1 / 4) / pow2 (ilog2 (1 / 4) - 52)"
  by code_simp

lemma roundDouble_quarter: "1 / 4 \<le> x \<Longrightarrow> notBelow (1 / 4) (roundDouble x)"
  using quarter_double by (intro roundDouble_notBelow) simp_all

lemma bitlen_nonneg: "0 \<le> bitlen n"
proof (induction n rule: bitlen.induct)
  case (1 n)
  show ?case
  proof (cases "n \<le> 0")
    case True
    then show ?thesis by (simp add: bitlen.simps [of n])
  next
    case False
    with "1.IH" have "0 \<le> bitlen (n div 2)" by simp
    with False show ?thesis by (simp add: bitlen.simps [of n])
  qed
qed

text \<open>
  Evaluation: \<open>roundDouble\<close> of a rational is \<open>roundDoubleQ\<close> of its numerator and
  denominator.
\<close>

lemma roundHalfEven_quot:
  assumes "0 < d"
  shows "roundHalfEven (of_int n / of_int d) = roundHalfEvenQ n d"
proof -
  let ?x = "of_int n / of_int d :: rat"
  have f: "\<lfloor>?x\<rfloor> = n div d" by (rule floor_divide_of_int_eq)
  have "n = d * (n div d) + n mod d" by simp
  then have "(of_int n :: rat) = of_int d * of_int (n div d) + of_int (n mod d)"
    by (metis of_int_add of_int_mult)
  then have r: "?x - of_int (n div d) = of_int (n mod d) / of_int d"
    using assms by (simp add: field_simps)
  have lt: "of_int (n mod d) / of_int d < (1 / 2 :: rat) \<longleftrightarrow> 2 * (n mod d) < d"
  proof -
    have "of_int (n mod d) / of_int d < (1 / 2 :: rat)
            \<longleftrightarrow> (of_int (2 * (n mod d)) :: rat) < of_int d"
      using assms by (simp add: field_simps)
    then show ?thesis by (simp only: of_int_less_iff)
  qed
  have gt: "(1 / 2 :: rat) < of_int (n mod d) / of_int d \<longleftrightarrow> d < 2 * (n mod d)"
  proof -
    have "(1 / 2 :: rat) < of_int (n mod d) / of_int d
            \<longleftrightarrow> (of_int d :: rat) < of_int (2 * (n mod d))"
      using assms by (simp add: field_simps)
    then show ?thesis by (simp only: of_int_less_iff)
  qed
  show ?thesis
    by (simp only: roundHalfEven_def roundHalfEvenQ_def Let_def f r lt gt)
qed

lemma ilog2_quot:
  assumes "0 < d"
  shows "ilog2 (of_int n / of_int d) = ilog2Q n d"
proof -
  let ?a = "of_int n / of_int d :: rat"
  have one: "1 \<le> ?a \<longleftrightarrow> d \<le> n"
  proof -
    have "1 \<le> ?a \<longleftrightarrow> (of_int d :: rat) \<le> of_int n"
      using assms by (simp add: field_simps)
    then show ?thesis by (simp only: of_int_le_iff)
  qed
  have f: "\<lfloor>?a\<rfloor> = n div d" by (rule floor_divide_of_int_eq)
  have "1 / ?a = of_int d / of_int n" by simp
  then have g: "\<lfloor>1 / ?a\<rfloor> = d div n" by (simp only: floor_divide_of_int_eq)
  let ?b = "bitlen (d div n)"
  have p: "?a = pow2 (1 - ?b) \<longleftrightarrow> n * 2 ^ nat (?b - 1) = d" if small: "\<not> d \<le> n"
  proof (cases "?b = 0")
    case True
    from small one have "?a \<noteq> 2" by auto
    moreover from small have "n \<noteq> d" by simp
    ultimately show ?thesis by (simp add: True pow2_def)
  next
    case False
    with bitlen_nonneg [of "d div n"] have b: "1 \<le> ?b" by simp
    have pw: "pow2 (1 - ?b) = 1 / 2 ^ nat (?b - 1)"
    proof (cases "?b = 1")
      case True
      then show ?thesis by (simp add: pow2_def)
    next
      case False
      with b have "\<not> 0 \<le> 1 - ?b" by simp
      then show ?thesis by (simp add: pow2_def)
    qed
    have "?a = 1 / 2 ^ nat (?b - 1) \<longleftrightarrow> (of_int (n * 2 ^ nat (?b - 1)) :: rat) = of_int d"
      using assms by (auto simp: field_simps)
    then show ?thesis by (simp only: pw of_int_eq_iff)
  qed
  show ?thesis
  proof (cases "d \<le> n")
    case True
    then show ?thesis by (simp only: ilog2_def ilog2Q_def one f if_True)
  next
    case False
    then show ?thesis
      by (simp only: ilog2_def ilog2Q_def one g p [OF False] Let_def if_False)
  qed
qed

lemma roundDouble_code [code]:
  "roundDouble q = (let (n, d) = quotient_of q in roundDoubleQ n d)"
proof -
  obtain n d where nd: "quotient_of q = (n, d)" by (cases "quotient_of q")
  then have q: "q = of_int n / of_int d" and d: "0 < d"
    by (simp_all add: quotient_of_div quotient_of_denom_pos)
  have z: "q = 0 \<longleftrightarrow> n = 0" using d by (simp add: q)
  have pos: "0 < q \<longleftrightarrow> 0 < n" using d by (simp add: q zero_less_divide_iff)
  have a: "\<bar>q\<bar> = of_int \<bar>n\<bar> / of_int d" using d by (simp add: q)
  have e: "ilog2 \<bar>q\<bar> = ilog2Q \<bar>n\<bar> d" unfolding a using d by (rule ilog2_quot)
  have sg: "sgn q = of_int (sgn n)" by (simp add: sgn_if z pos)
  have up: "\<bar>q\<bar> / pow2 s = of_int \<bar>n\<bar> / of_int (d * 2 ^ nat s)"
           "sgn q * (of_int m * pow2 s) = of_int (sgn n * m * 2 ^ nat s)"
    if "0 \<le> s" for s m
    using that by (simp_all add: a sg pow2_def)
  have down: "\<bar>q\<bar> / pow2 s = of_int (\<bar>n\<bar> * 2 ^ nat (- s)) / of_int d"
             "sgn q * (of_int m * pow2 s) = Fract (sgn n * m) (2 ^ nat (- s))"
    if "\<not> 0 \<le> s" for s m
    using that by (simp_all add: a sg pow2_def Fract_of_int_quotient)
  have m: "roundHalfEven (\<bar>q\<bar> / pow2 s)
             = (if 0 \<le> s then roundHalfEvenQ \<bar>n\<bar> (d * 2 ^ nat s)
                else roundHalfEvenQ (\<bar>n\<bar> * 2 ^ nat (- s)) d)" for s
    using d by (cases "0 \<le> s") (simp_all only: up down roundHalfEven_quot if_True if_False
        zero_less_mult_iff zero_less_power zero_less_numeral simp_thms)
  have r: "Fin (sgn q * (of_int k * pow2 s))
             = Fin (if 0 \<le> s then of_int (sgn n * k * 2 ^ nat s)
                    else Fract (sgn n * k) (2 ^ nat (- s)))" for s k
    by (cases "0 \<le> s") (simp_all only: up down if_True if_False simp_thms)
  show ?thesis
    by (simp only: nd prod.case Let_def roundDouble_def roundDoubleQ_def z pos e m r)
qed

section \<open>Numeric coercion\<close>

lemma trim_whitespace_only:
  assumes "\<forall>c \<in> set s. isWhiteSpace c"
  shows "trim s = []"
proof -
  have h: "dropWhile isWhiteSpace s = []"
    using assms by (induction s) auto
  show ?thesis by (simp only: trim_def h rev.simps dropWhile.simps)
qed

lemma StringToNumber_empty: "StringToNumber [] = Fin 0"
  by (simp add: StringToNumber_def trim_def)

lemma parseNumber_whitespace:
  assumes "s \<noteq> []" and "\<forall>c \<in> set s. isWhiteSpace c"
  shows "parseNumber (Str s) = Some (Fin 0)"
  using assms by (simp add: parseNumber_def trim_whitespace_only StringToNumber_empty)

lemma parseNumber_not_NaN: "parseNumber v \<noteq> Some NaN"
  by (simp add: parseNumber_def Let_def)

lemma pickNumber_append:
  "pickNumber sample (pre @ rest) =
     (case pickNumber sample pre of Some v \<Rightarrow> Some v | None \<Rightarrow> pickNumber sample rest)"
  by (induction pre) (auto split: option.splits)

text \<open>
  Claim C7, as the code has it: \<open>parseNumber\<close> gives no result for \<open>undefined\<close>,
  \<open>null\<close> and the empty string; for any other value it parses the trimmed text and gives
  no result exactly when the parse is NaN. The result is never NaN, and the function is
  total on the values of the model. An infinite parse is a result like any other number.
\<close>

theorem parseNumber_absent_iff_NaN:
  "parseNumber Undefined = None \<and> parseNumber Null = None \<and> parseNumber (Str []) = None \<and>
   parseNumber (Num n) = (if n = NaN then None else Some n) \<and>
   parseNumber (Str (c # cs)) =
     (if StringToNumber (trim (c # cs)) = NaN then None
      else Some (StringToNumber (trim (c # cs)))) \<and>
   parseNumber (Bool b) = None \<and> parseNumber Obj = None \<and>
   parseNumber v \<noteq> Some NaN"
proof -
  have t: "StringToNumber (trim ''true'') = NaN" and f: "StringToNumber (trim ''false'') = NaN"
    by code_simp+
  have "parseNumber (Bool b) = None"
    using t f by (simp add: parseNumber_def)
  then show ?thesis
    by (simp add: parseNumber_def Let_def)
qed

text \<open>
  The text \<open>Infinity\<close> parses to a number that is not finite, and \<open>parseNumber\<close>
  returns it.
\<close>

theorem parseNumber_Infinity_counterexample:
  "parseNumber (Str ''Infinity'') = Some PosInf"
  by code_simp

text \<open>So does a decimal literal beyond the largest double.\<close>

lemma parseNumber_overflow: "parseNumber (Str ''1e400'') = Some PosInf"
  by code_simp

text \<open>
  Claim C10: a non-empty string of white space only parses to 0, not to an absent result.
  So \<open>pickNumber\<close> gives 0 when it reaches a key whose cell is such a string (no earlier
  key having given a number), and such a metal cell has concentration 0.
\<close>

theorem whitespace_cell_is_zero:
  assumes "s \<noteq> []" and "\<forall>c \<in> set s. isWhiteSpace c"
  shows "parseNumber (Str s) = Some (Fin 0) \<and>
         (map_of sample key = Some (Str s) \<and> pickNumber sample pre = None \<longrightarrow>
            pickNumber sample (pre @ key # post) = Some (Fin 0)) \<and>
         (map_of sample metal = Some (Str s) \<longrightarrow> concentrationOf sample metal = Fin 0)"
proof -
  have p: "parseNumber (Str s) = Some (Fin 0)"
    using assms by (rule parseNumber_whitespace)
  have k: "pickNumber sample (pre @ key # post) = Some (Fin 0)"
    if "map_of sample key = Some (Str s)" and "pickNumber sample pre = None"
    using that p by (simp add: pickNumber_append hasProp_def hasOwn_def getProp_def)
  have m: "concentrationOf sample metal = Fin 0" if "map_of sample metal = Some (Str s)"
    using that p by (simp add: concentrationOf_def getProp_def)
  show ?thesis using p k m by blast
qed

theorem whitespace_cell_is_zero_witness:
  "isWhiteSpace (CHR '' '') \<and>
   parseNumber (Str '' '') = Some (Fin 0) \<and>
   pickNumber [(''lat'', Str '' ''), (''Pb'', Str '' '')] [''latitude'', ''Latitude'', ''lat'']
     = Some (Fin 0) \<and>
   concentrationOf [(''lat'', Str '' ''), (''Pb'', Str '' '')] ''Pb'' = Fin 0"
proof -
  have a: "'' '' \<noteq> []" by simp
  have b: "\<forall>c \<in> set '' ''. isWhiteSpace c" by (simp add: isWhiteSpace_def)
  have c: "map_of [(''lat'', Str '' ''), (''Pb'', Str '' '')] ''lat'' = Some (Str '' '')"
    by simp
  have d: "pickNumber [(''lat'', Str '' ''), (''Pb'', Str '' '')] [''latitude'', ''Latitude''] = None"
    by (simp add: hasProp_def hasOwn_def objectPrototypeKeys_def)
  have e: "map_of [(''lat'', Str '' ''), (''Pb'', Str '' '')] ''Pb'' = Some (Str '' '')"
    by simp
  show ?thesis
    using whitespace_cell_is_zero [OF a b,
        of "[(''lat'', Str '' ''), (''Pb'', Str '' '')]" "''lat''" "[''latitude'', ''Latitude'']"
           "[]" "''Pb''"] b c d e
    by simp
qed

section \<open>The indices and the category\<close>

text \<open>
  Claim C2: for every sample and every list of metal columns the evaluation index and the
  contamination degree are the same number.
\<close>

theorem hei_eq_cd: "calculateHEI sample ms = calculateCd sample ms"
  by (simp add: calculateHEI_def calculateCd_def)

text \<open>
  Claim C4: an index below 100 is Safe, one from 100 up to but excluding 200 is Slightly
  Polluted, one of 200 or more is Hazardous; 100 and 200 themselves fall in the higher
  category.
\<close>

theorem categorize_thresholds:
  "(jslt h (Fin 100) \<longrightarrow> categorizeWaterQuality h = Safe) \<and>
   (jsge h (Fin 100) \<and> jslt h (Fin 200) \<longrightarrow> categorizeWaterQuality h = SlightlyPolluted) \<and>
   (jsge h (Fin 200) \<longrightarrow> categorizeWaterQuality h = Hazardous) \<and>
   categorizeWaterQuality (Fin 100) = SlightlyPolluted \<and>
   categorizeWaterQuality (Fin 200) = Hazardous"
  by (cases h) (auto simp: categorizeWaterQuality_def jsge_def jsle_def)

theorem categorize_thresholds_witness:
  "jslt (Fin 50) (Fin 100) \<and> categorizeWaterQuality (Fin 50) = Safe \<and>
   jsge (Fin 150) (Fin 100) \<and> jslt (Fin 150) (Fin 200) \<and>
   categorizeWaterQuality (Fin 150) = SlightlyPolluted \<and>
   jsge (Fin 250) (Fin 200) \<and> categorizeWaterQuality (Fin 250) = Hazardous"
  using categorize_thresholds [of "Fin 50"] categorize_thresholds [of "Fin 150"]
    categorize_thresholds [of "Fin 250"]
  by (simp add: jsge_def jsle_def)

text \<open>
  The weighted index. For columns whose names are not names of members that every object
  inherits, the limit read from the table is the table's entry or 1, every weight is at
  least a quarter, so is their sum, and \<open>calculateHPI\<close> computes the formula of the
  specification.
\<close>

lemma table_values:
  "list_all (\<lambda>(k, v). truthy v \<and> notBelow (1 / 4) (jsdiv (Fin 1) (ToNumber v))) WHO_STANDARDS"
  by code_simp

lemma table_entry:
  assumes "map_of WHO_STANDARDS metal = Some v"
  shows "truthy v \<and> (\<exists>l. v = Num l) \<and> notBelow (1 / 4) (jsdiv (Fin 1) (ToNumber v))"
proof -
  from assms have m: "(metal, v) \<in> set WHO_STANDARDS" by (rule map_of_SomeD)
  with table_values have "truthy v \<and> notBelow (1 / 4) (jsdiv (Fin 1) (ToNumber v))"
    by (auto simp: list_all_iff)
  moreover from m have "\<exists>l. v = Num l"
    by (auto simp: WHO_STANDARDS_def)
  ultimately show ?thesis by simp
qed

lemma standard_is_limit:
  assumes "metal \<notin> set objectPrototypeKeys"
  shows "standardOf metal = spec_limit metal"
proof (cases "map_of WHO_STANDARDS metal")
  case None
  with assms show ?thesis
    by (simp add: standardOf_def spec_limit_def getProp_def)
next
  case (Some v)
  with table_entry [OF Some] show ?thesis
    by (auto simp: standardOf_def spec_limit_def getProp_def)
qed

lemma unit_weight: "roundDouble 1 = Fin 1"
  by code_simp

lemma spec_weight_notBelow: "notBelow (1 / 4) (spec_weight metal)"
proof (cases "map_of WHO_STANDARDS metal")
  case None
  then show ?thesis by (simp add: spec_weight_def spec_limit_def unit_weight)
next
  case (Some v)
  with table_entry [OF Some] show ?thesis
    by (auto simp: spec_weight_def spec_limit_def)
qed

lemma concentration_is_spec: "concentrationOf sample metal = spec_concentration sample metal"
  using parseNumber_not_NaN [of "getProp sample metal"]
  by (auto simp: concentrationOf_def spec_concentration_def split: option.splits)

lemma hpiStep_spec:
  assumes "metal \<notin> set objectPrototypeKeys"
  shows "hpiStep sample metal acc =
           (jsadd (fst acc) (jsmul (spec_weight metal) (spec_subIndex sample metal)),
            jsadd (snd acc) (spec_weight metal))"
  using assms
  by (simp add: hpiStep_def Let_def standard_is_limit concentration_is_spec
      spec_weight_def spec_subIndex_def)

lemma fold_hpiStep_spec:
  assumes "set ms \<inter> set objectPrototypeKeys = {}"
  shows "fold (hpiStep sample) ms acc =
           (foldl jsadd (fst acc) (map (\<lambda>m. jsmul (spec_weight m) (spec_subIndex sample m)) ms),
            foldl jsadd (snd acc) (map spec_weight ms))"
  using assms
proof (induction ms arbitrary: acc)
  case Nil
  then show ?case by simp
next
  case (Cons m ms)
  then have m: "m \<notin> set objectPrototypeKeys" and ms: "set ms \<inter> set objectPrototypeKeys = {}"
    by auto
  show ?case
    by (simp add: hpiStep_spec [OF m] Cons.IH [OF ms])
qed

text \<open>Adding a weight to a sum that is not negative gives at least a quarter.\<close>

lemma jsadd_weight:
  assumes "notBelow 0 acc" and "notBelow (1 / 4) w"
  shows "notBelow (1 / 4) (jsadd acc w)"
proof (cases acc)
  case (Fin b)
  show ?thesis
  proof (cases w)
    case w: (Fin t)
    with Fin assms have "1 / 4 \<le> b + t" by simp
    then have "notBelow (1 / 4) (roundDouble (b + t))" by (rule roundDouble_quarter)
    with Fin w show ?thesis by simp
  qed (use Fin assms in simp_all)
qed (use assms in \<open>cases w; simp\<close>)+

lemma notBelow_weaken: "notBelow (1 / 4) x \<Longrightarrow> notBelow 0 x"
  by (cases x) simp_all

lemma total_weight_notBelow:
  assumes "notBelow (1 / 4) acc"
  shows "notBelow (1 / 4) (foldl jsadd acc (map spec_weight ms))"
  using assms
proof (induction ms arbitrary: acc)
  case Nil
  then show ?case by simp
next
  case (Cons m ms)
  have "notBelow (1 / 4) (jsadd acc (spec_weight m))"
    using Cons.prems by (intro jsadd_weight notBelow_weaken spec_weight_notBelow)
  then show ?case by (simp add: Cons.IH)
qed

lemma total_weight_positive:
  assumes "ms \<noteq> []"
  shows "jsgt (foldl jsadd (Fin 0) (map spec_weight ms)) (Fin 0)"
proof -
  from assms obtain m rest where ms: "ms = m # rest" by (cases ms) auto
  have "notBelow (1 / 4) (jsadd (Fin 0) (spec_weight m))"
    by (intro jsadd_weight spec_weight_notBelow) simp
  then have "notBelow (1 / 4) (foldl jsadd (jsadd (Fin 0) (spec_weight m)) (map spec_weight rest))"
    by (rule total_weight_notBelow)
  then have "notBelow (1 / 4) (foldl jsadd (Fin 0) (map spec_weight ms))"
    by (simp add: ms)
  then show ?thesis
    by (cases "foldl jsadd (Fin 0) (map spec_weight ms)") (simp_all add: jsgt_def)
qed

lemma calculateHPI_eq_spec_HPI:
  assumes "set ms \<inter> set objectPrototypeKeys = {}"
  shows "calculateHPI sample ms = spec_HPI sample ms"
proof (cases "ms = []")
  case True
  then show ?thesis by (simp add: calculateHPI_def spec_HPI_def jsgt_def)
next
  case False
  then show ?thesis
    using total_weight_positive [OF False]
    by (simp add: calculateHPI_def spec_HPI_def jssum_def Let_def
        fold_hpiStep_spec [OF assms])
qed

text \<open>
  Claim C3 states that \<open>calculateHPI\<close> returns the sum of weight times sub-index over
  the sum of the weights, with the limit of a metal being its entry in the standards table
  or 1, and 0 for an empty column list. For a column named \<open>constructor\<close> the table
  has no entry, yet the read finds the member of that name which the table inherits as an
  object; it is truthy, the default 1 is not taken, the weight is NaN, and the function
  returns 0 where the formula gives 100.
\<close>

theorem calculateHPI_inherited_name:
  "calculateHPI [(''constructor'', Num (Fin 1))] [''constructor''] = Fin 0 \<and>
   spec_HPI [(''constructor'', Num (Fin 1))] [''constructor''] = Fin 100"
  by code_simp

section \<open>The batch processor\<close>

lemma processWaterSamples_length:
  "length (processWaterSamples nts samples) = length samples"
  by (simp add: processWaterSamples_def Let_def)

lemma processWaterSamples_nth:
  assumes "i < length samples"
  shows "processWaterSamples nts samples ! i =
           processSample nts (metalColumns (samples ! 0)) (samples ! i) i"
proof -
  from assms have "samples \<noteq> []" by auto
  with assms show ?thesis
    by (simp add: processWaterSamples_def Let_def)
qed

lemma showNat_nonempty: "showNat n \<noteq> []"
  by (subst showNat.simps) simp

lemma integerToString_nonempty: "integerToString n \<noteq> []"
  by (cases n) (simp_all add: showNat_nonempty)

lemma processSample_id:
  "idR (processSample numberToString cols sample i)
     = (case idToString numberToString (getProp sample ''id'') of
          None \<Rightarrow> ''Sample '' @ showNat (i + 1)
        | Some s \<Rightarrow> if s = [] then ''Sample '' @ showNat (i + 1) else s)"
  by (simp add: processSample_def Let_def)

text \<open>
  Claim C5: the batch processor returns the empty list for the empty input; otherwise it
  returns one result per row, in the order of the rows, the result at index \<open>i\<close> being
  the one computed from row \<open>i\<close>. Its id is never empty: it is the row's id as a
  string, or \<open>Sample\<close> followed by \<open>i + 1\<close> when the row has no id or an empty one.
  This holds for every conversion of numbers to strings.
\<close>

theorem processWaterSamples_rows_and_ids:
  "processWaterSamples numberToString [] = [] \<and>
   length (processWaterSamples numberToString samples) = length samples \<and>
   (\<forall>i < length samples.
      processWaterSamples numberToString samples ! i
        = processSample numberToString (metalColumns (samples ! 0)) (samples ! i) i \<and>
      idR (processWaterSamples numberToString samples ! i) \<noteq> [] \<and>
      idR (processWaterSamples numberToString samples ! i)
        = (case idToString numberToString (getProp (samples ! i) ''id'') of
             None \<Rightarrow> ''Sample '' @ showNat (i + 1)
           | Some s \<Rightarrow> if s = [] then ''Sample '' @ showNat (i + 1) else s))"
proof -
  have e: "processWaterSamples numberToString [] = []"
    by (simp add: processWaterSamples_def)
  show ?thesis
    using e
    by (simp add: processWaterSamples_length processWaterSamples_nth processSample_id
        split: option.splits)
qed

theorem processWaterSamples_rows_and_ids_witness:
  "(1::nat) < length [[(''id'', Num (Fin 12)), (''Pb'', Str ''1'')], [(''Pb'', Str ''2'')]] \<and>
   processWaterSamples integerToString [] = [] \<and>
   length (processWaterSamples integerToString
             [[(''id'', Num (Fin 12)), (''Pb'', Str ''1'')], [(''Pb'', Str ''2'')]]) = 2 \<and>
   idR (processWaterSamples integerToString
          [[(''id'', Num (Fin 12)), (''Pb'', Str ''1'')], [(''Pb'', Str ''2'')]] ! 0) = ''12'' \<and>
   idR (processWaterSamples integerToString
          [[(''id'', Num (Fin 12)), (''Pb'', Str ''1'')], [(''Pb'', Str ''2'')]] ! 1) = ''Sample 2''"
proof -
  let ?S = "[[(''id'', Num (Fin 12)), (''Pb'', Str ''1'')], [(''Pb'', Str ''2'')]]"
  note t = processWaterSamples_rows_and_ids [of integerToString ?S]
  note rows = t [THEN conjunct2, THEN conjunct2, rule_format]
  have l0: "(0::nat) < length ?S" and l1: "(1::nat) < length ?S"
    by simp_all
  have a: "(case idToString integerToString (getProp (?S ! 0) ''id'') of
              None \<Rightarrow> ''Sample '' @ showNat (0 + 1)
            | Some s \<Rightarrow> if s = [] then ''Sample '' @ showNat (0 + 1) else s) = ''12''"
    by code_simp
  have b: "(case idToString integerToString (getProp (?S ! 1) ''id'') of
              None \<Rightarrow> ''Sample '' @ showNat (1 + 1)
            | Some s \<Rightarrow> if s = [] then ''Sample '' @ showNat (1 + 1) else s) = ''Sample 2''"
    by code_simp
  have i0: "idR (processWaterSamples integerToString ?S ! 0) = ''12''"
    using rows [OF l0, THEN conjunct2, THEN conjunct2] a by (rule trans)
  have i1: "idR (processWaterSamples integerToString ?S ! 1) = ''Sample 2''"
    using rows [OF l1, THEN conjunct2, THEN conjunct2] b by (rule trans)
  have n: "length (processWaterSamples integerToString ?S) = 2"
    unfolding t [THEN conjunct2, THEN conjunct1] by simp
  show ?thesis using l1 t [THEN conjunct1] n i0 i1 by blast
qed










text \<open>
  A row with cadmium at its limit, \<open>0.003\<close>, does the same: the quotient of
  \<open>(1 / 0.003) * 100\<close> by \<open>1 / 0.003\<close> is the double just below 100, so the category is
  Safe and the stored \<open>hpi\<close> is 100.
\<close>

lemma cadmium_at_its_limit:
  "calculateHPI [(''Cd'', Str ''0.003'')] [''Cd''] = StringToNumber ''99.99999999999999'' \<and>
   category (processWaterSamples integerToString [[(''Cd'', Str ''0.003'')]] ! 0) = Safe \<and>
   hpi (processWaterSamples integerToString [[(''Cd'', Str ''0.003'')]] ! 0) = Fin 100"
  by code_simp

text \<open>
  Writing a column that is not among the metal columns into a row changes none of the
  indices, nor the category, nor the concentrations kept for the row.
\<close>

lemma exclude_eval:
  "exclude = [''id'', ''latitude'', ''longitude'', ''lat'', ''lon'', ''lng'', ''latitude'', ''longitude'']"
  by code_simp

lemma metalColumns_subset: "set (metalColumns first) \<subseteq> fst ` set first"
  by (auto simp: metalColumns_def)

lemma getProp_update:
  "getProp (AList.update k v al) k' = (if k' = k then v else getProp al k')"
  by (simp add: getProp_def update_conv')

lemma concentrationOf_update:
  "m \<noteq> k \<Longrightarrow> concentrationOf (AList.update k v row) m = concentrationOf row m"
  by (simp add: concentrationOf_def getProp_update)

lemma calculateHPI_update:
  assumes "k \<notin> set ms"
  shows "calculateHPI (AList.update k v row) ms = calculateHPI row ms"
proof -
  have "fold (hpiStep (AList.update k v row)) ms acc = fold (hpiStep row) ms acc" for acc
  proof (rule fold_cong [OF refl refl])
    fix m assume "m \<in> set ms"
    with assms have "m \<noteq> k" by auto
    then show "hpiStep (AList.update k v row) m = hpiStep row m"
      by (simp add: hpiStep_def concentrationOf_update fun_eq_iff)
  qed
  then show ?thesis by (simp add: calculateHPI_def)
qed

lemma calculateHEI_update:
  assumes "k \<notin> set ms"
  shows "calculateHEI (AList.update k v row) ms = calculateHEI row ms"
  unfolding calculateHEI_def
proof (rule fold_cong [OF refl refl])
  fix m assume "m \<in> set ms"
  with assms have "m \<noteq> k" by auto
  then show "(\<lambda>sum. let concentration = concentrationOf (AList.update k v row) m;
                         standard = standardOf m
                     in jsadd sum (jsdiv concentration standard))
           = (\<lambda>sum. let concentration = concentrationOf row m; standard = standardOf m
                     in jsadd sum (jsdiv concentration standard))"
    by (simp add: concentrationOf_update)
qed

lemma calculateCd_update:
  assumes "k \<notin> set ms"
  shows "calculateCd (AList.update k v row) ms = calculateCd row ms"
  unfolding calculateCd_def
proof (rule fold_cong [OF refl refl])
  fix m assume "m \<in> set ms"
  with assms have "m \<noteq> k" by auto
  then show "(\<lambda>sum. let concentration = concentrationOf (AList.update k v row) m;
                         standard = standardOf m
                     in jsadd sum (jsdiv concentration standard))
           = (\<lambda>sum. let concentration = concentrationOf row m; standard = standardOf m
                     in jsadd sum (jsdiv concentration standard))"
    by (simp add: concentrationOf_update)
qed

lemma metals_update:
  assumes "k \<notin> set ms"
  shows "fold (\<lambda>metal m. setMetal metal (concentrationOf (AList.update k v row) metal) m) ms acc
       = fold (\<lambda>metal m. setMetal metal (concentrationOf row metal) m) ms acc"
proof (rule fold_cong [OF refl refl])
  fix m assume "m \<in> set ms"
  with assms have "m \<noteq> k" by auto
  then show "setMetal m (concentrationOf (AList.update k v row) m)
           = setMetal m (concentrationOf row m)"
    by (simp add: concentrationOf_update)
qed

lemma processSample_update:
  assumes "k \<notin> set cols"
  shows "hpi (processSample nts cols (AList.update k v row) i) = hpi (processSample nts cols row i)"
    and "hei (processSample nts cols (AList.update k v row) i) = hei (processSample nts cols row i)"
    and "cd (processSample nts cols (AList.update k v row) i) = cd (processSample nts cols row i)"
    and "category (processSample nts cols (AList.update k v row) i)
           = category (processSample nts cols row i)"
    and "metals (processSample nts cols (AList.update k v row) i)
           = metals (processSample nts cols row i)"
  using assms
  by (simp_all add: processSample_def Let_def calculateHPI_update calculateHEI_update
      calculateCd_update metals_update)

lemma processWaterSamples_update_field:
  assumes k: "key \<notin> fst ` set (samples ! 0)" and j: "0 < j" "j < length samples"
    and f: "\<And>cols row i. key \<notin> set cols \<Longrightarrow>
              fld (processSample nts cols (AList.update key v row) i)
                = fld (processSample nts cols row i)"
  shows "map fld (processWaterSamples nts (samples[j := AList.update key v (samples ! j)]))
           = map fld (processWaterSamples nts samples)"
proof (rule nth_equalityI)
  show "length (map fld (processWaterSamples nts (samples[j := AList.update key v (samples ! j)])))
          = length (map fld (processWaterSamples nts samples))"
    by (simp add: processWaterSamples_length)
next
  fix i
  assume "i < length (map fld (processWaterSamples nts (samples[j := AList.update key v (samples ! j)])))"
  then have i: "i < length samples"
    by (simp add: processWaterSamples_length)
  have c: "key \<notin> set (metalColumns (samples ! 0))"
    using k metalColumns_subset by blast
  have z: "samples[j := AList.update key v (samples ! j)] ! 0 = samples ! 0"
    using j by simp
  show "map fld (processWaterSamples nts (samples[j := AList.update key v (samples ! j)])) ! i
          = map fld (processWaterSamples nts samples) ! i"
  proof (cases "i = j")
    case True
    with i j z show ?thesis
      by (simp add: processWaterSamples_length processWaterSamples_nth f [OF c])
  next
    case False
    with i j z show ?thesis
      by (simp add: processWaterSamples_length processWaterSamples_nth)
  qed
qed

text \<open>
  Claim C6: the metal columns are the keys of the first row whose lower-case form is none
  of \<open>id\<close>, \<open>latitude\<close>, \<open>longitude\<close>, \<open>lat\<close>, \<open>lon\<close>, \<open>lng\<close>; every row is
  processed with the columns of row 0; and a column that row 0 does not have counts for no
  row: giving a later row a value for it changes no index, category or kept concentration
  of any result.
\<close>

theorem metal_columns_frozen_from_first_row:
  "metalColumns first
     = filter (\<lambda>key. toLowerCase key \<notin>
                        {''id'', ''latitude'', ''longitude'', ''lat'', ''lon'', ''lng''})
         (map fst first) \<and>
   (\<forall>i < length samples.
      processWaterSamples nts samples ! i
        = processSample nts (metalColumns (samples ! 0)) (samples ! i) i) \<and>
   (key \<notin> fst ` set (samples ! 0) \<and> 0 < j \<and> j < length samples \<longrightarrow>
      map hpi (processWaterSamples nts (samples[j := AList.update key v (samples ! j)]))
        = map hpi (processWaterSamples nts samples) \<and>
      map hei (processWaterSamples nts (samples[j := AList.update key v (samples ! j)]))
        = map hei (processWaterSamples nts samples) \<and>
      map cd (processWaterSamples nts (samples[j := AList.update key v (samples ! j)]))
        = map cd (processWaterSamples nts samples) \<and>
      map category (processWaterSamples nts (samples[j := AList.update key v (samples ! j)]))
        = map category (processWaterSamples nts samples) \<and>
      map metals (processWaterSamples nts (samples[j := AList.update key v (samples ! j)]))
        = map metals (processWaterSamples nts samples))"
proof -
  have a: "metalColumns first
     = filter (\<lambda>key. toLowerCase key \<notin>
                        {''id'', ''latitude'', ''longitude'', ''lat'', ''lon'', ''lng''})
         (map fst first)"
    unfolding metalColumns_def exclude_eval
    by (rule filter_cong [OF refl]) auto
  have b: "\<forall>i < length samples.
      processWaterSamples nts samples ! i
        = processSample nts (metalColumns (samples ! 0)) (samples ! i) i"
    by (simp add: processWaterSamples_nth)
  show ?thesis
    using a b
    by (auto intro!: processWaterSamples_update_field simp: processSample_update)
qed

theorem metal_columns_frozen_from_first_row_witness:
  "''Cd'' \<notin> fst ` set ([[(''id'', Str ''S1''), (''Pb'', Str ''0.02'')],
                           [(''id'', Str ''S2''), (''Pb'', Str ''0.03'')]] ! 0) \<and>
   (1::nat) < length [[(''id'', Str ''S1''), (''Pb'', Str ''0.02'')],
                      [(''id'', Str ''S2''), (''Pb'', Str ''0.03'')]] \<and>
   metalColumns [(''id'', Str ''S1''), (''Pb'', Str ''0.02'')] = [''Pb''] \<and>
   map hpi (processWaterSamples integerToString
              [[(''id'', Str ''S1''), (''Pb'', Str ''0.02'')],
               [(''id'', Str ''S2''), (''Pb'', Str ''0.03''), (''Cd'', Str ''0.01'')]])
     = map hpi (processWaterSamples integerToString
                  [[(''id'', Str ''S1''), (''Pb'', Str ''0.02'')],
                   [(''id'', Str ''S2''), (''Pb'', Str ''0.03'')]]) \<and>
   map metals (processWaterSamples integerToString
              [[(''id'', Str ''S1''), (''Pb'', Str ''0.02'')],
               [(''id'', Str ''S2''), (''Pb'', Str ''0.03''), (''Cd'', Str ''0.01'')]])
     = [[(''Pb'', roundDouble (1 / 50))], [(''Pb'', roundDouble (3 / 100))]]"
proof -
  let ?S = "[[(''id'', Str ''S1''), (''Pb'', Str ''0.02'')],
             [(''id'', Str ''S2''), (''Pb'', Str ''0.03'')]]"
  note t = metal_columns_frozen_from_first_row
      [of "[(''id'', Str ''S1''), (''Pb'', Str ''0.02'')]" ?S integerToString "''Cd''" 1
          "Str ''0.01''"]
  have k: "''Cd'' \<notin> fst ` set (?S ! 0)" by simp
  have j: "(0::nat) < 1" "(1::nat) < length ?S" by simp_all
  have u: "?S[1 := AList.update ''Cd'' (Str ''0.01'') (?S ! 1)]
             = [[(''id'', Str ''S1''), (''Pb'', Str ''0.02'')],
                [(''id'', Str ''S2''), (''Pb'', Str ''0.03''), (''Cd'', Str ''0.01'')]]"
    by simp
  have c: "filter (\<lambda>key. toLowerCase key \<notin>
                        {''id'', ''latitude'', ''longitude'', ''lat'', ''lon'', ''lng''})
             (map fst [(''id'', Str ''S1''), (''Pb'', Str ''0.02'')]) = [''Pb'']"
    by code_simp
  have m: "map metals (processWaterSamples integerToString ?S)
             = [[(''Pb'', roundDouble (1 / 50))], [(''Pb'', roundDouble (3 / 100))]]"
    by code_simp
  note r = t [THEN conjunct2, THEN conjunct2, rule_format, OF conjI [OF k conjI [OF j]]]
  have h: "map hpi (processWaterSamples integerToString
              [[(''id'', Str ''S1''), (''Pb'', Str ''0.02'')],
               [(''id'', Str ''S2''), (''Pb'', Str ''0.03''), (''Cd'', Str ''0.01'')]])
     = map hpi (processWaterSamples integerToString ?S)"
    using r [THEN conjunct1] unfolding u .
  have ms: "map metals (processWaterSamples integerToString
              [[(''id'', Str ''S1''), (''Pb'', Str ''0.02'')],
               [(''id'', Str ''S2''), (''Pb'', Str ''0.03''), (''Cd'', Str ''0.01'')]])
     = map metals (processWaterSamples integerToString ?S)"
    using r [THEN conjunct2, THEN conjunct2, THEN conjunct2, THEN conjunct2] unfolding u .
  have mc: "metalColumns [(''id'', Str ''S1''), (''Pb'', Str ''0.02'')] = [''Pb'']"
    using t [THEN conjunct1] c by (rule trans)
  show ?thesis
    using k j(2) mc h ms m by (simp only: simp_thms)
qed

text \<open>
  The scenario of the specification: cadmium 0.002 and lead 0.025 give the evaluation index
  3.17 and the pollution index 108.97 (the doubles nearest to them), which is Slightly
  Polluted. Two rows whose index rounds at a half: 0.00145 is stored as 0.14 and 0.00015
  as 0.02.
\<close>

lemma scenario_cadmium_lead:
  "processWaterSamples integerToString
     [[(''id'', Str ''S1''), (''Cd'', Str ''0.002''), (''Pb'', Str ''0.025'')]]
   = [\<lparr>idR = ''S1'', latitude = None, longitude = None, hpi = roundDouble (10897 / 100),
        hei = roundDouble (317 / 100), cd = roundDouble (317 / 100),
        category = SlightlyPolluted,
        metals = [(''Cd'', roundDouble (1 / 500)), (''Pb'', roundDouble (1 / 40))]\<rparr>]"
  by code_simp

lemma stored_hpi_near_a_half:
  "map hpi (processWaterSamples integerToString
              [[(''X'', Str ''0.00145'')], [(''X'', Str ''0.00015'')]])
     = [roundDouble (14 / 100), roundDouble (2 / 100)]"
  by code_simp

section \<open>The results page\<close>

lemma typeofNumber_numberOrNull: "typeofNumber (numberOrNull x) = resolves x"
  by (cases x) (simp_all add: numberOrNull_def)

lemma normalizeRecord_fields:
  "getProp (normalizeRecord r idx) ''id''
     = nullish [getProp r ''id'', getProp r ''sample_id'', getProp r ''SampleID'',
                getProp r ''Location''] (Str (''sample-'' @ showNat (idx + 1)))"
  "getProp (normalizeRecord r idx) ''latitude'' = numberOrNull (pickNumber_results r latKeys)"
  "getProp (normalizeRecord r idx) ''longitude'' = numberOrNull (pickNumber_results r lonKeys)"
  "getProp (normalizeRecord r idx) ''hpi''
     = numberOrNull (pickNumericAlt r [''hpi'', ''HPI'', ''hpi_value'', ''hpiValue'', ''hpi_val''])"
  "getProp (normalizeRecord r idx) ''hei''
     = numberOrNull (pickNumericAlt r [''hei'', ''HEI'', ''hei_value'', ''heiValue''])"
  "getProp (normalizeRecord r idx) ''cd''
     = numberOrNull (pickNumericAlt r [''cd'', ''Cd'', ''contamination_degree'',
                                       ''contaminationDegree''])"
  by (simp_all add: normalizeRecord_def Let_def getProp_update)

lemma keep_normalizeRecord: "keep (normalizeRecord r idx) = survives r idx"
  by (simp add: keep_def survives_def normalizeRecord_fields typeofNumber_numberOrNull)

lemma normalizeFrom_records:
  "normalizeFrom k (map Record rs)
     = Inr (map (\<lambda>(r, i). normalizeRecord r i) (zip rs [k ..< k + length rs]))"
proof (induction rs arbitrary: k)
  case Nil
  then show ?case by simp
next
  case (Cons r rs)
  have "[k ..< k + length (r # rs)] = k # [Suc k ..< Suc k + length rs]"
    by (subst upt_rec) simp
  then show ?case
    using Cons.IH [of "Suc k"] by simp
qed

lemma normalizeResults_records:
  "normalizeResults (map Record rs)
     = Inr (map (\<lambda>(r, i). normalizeRecord r i) (zip rs [0 ..< length rs]))"
  using normalizeFrom_records [of 0 rs] by (simp add: normalizeResults_def)

text \<open>A \<open>null\<close> among the stored elements makes the page report corrupt data.\<close>

lemma normalizeFrom_null:
  "NullElement \<in> set raw \<Longrightarrow> normalizeFrom k raw = Inl TypeError"
proof (induction raw arbitrary: k)
  case Nil
  then show ?case by simp
next
  case (Cons e raw)
  then show ?case by (cases e) auto
qed

lemma loadResults_null_element:
  "NullElement \<in> set raw \<Longrightarrow> loadResults (Array raw) = Inl CorruptData"
  by (simp add: loadResults_def normalizeResults_def normalizeFrom_null)

text \<open>
  Claim C8: a stored record is kept after normalization if and only if its id is
  non-empty and both coordinates resolve to numbers or at least one of \<open>hpi\<close>,
  \<open>hei\<close>, \<open>cd\<close> does. For an array of records the page's result is the list of the
  normalized records that pass, in their order, and never the error: the records that
  fail the condition are left out.
\<close>

theorem stored_record_survival:
  "keep (normalizeRecord r idx) = survives r idx \<and>
   loadResults (Array (map Record raw))
     = Inr (map (\<lambda>(r, i). normalizeRecord r i)
              (filter (\<lambda>(r, i). survives r i) (zip raw [0 ..< length raw])))"
proof -
  have "filter keep (map (\<lambda>(r, i). normalizeRecord r i) (zip raw [0 ..< length raw]))
          = map (\<lambda>(r, i). normalizeRecord r i)
              (filter (\<lambda>(r, i). survives r i) (zip raw [0 ..< length raw]))"
    by (simp add: filter_map o_def case_prod_unfold keep_normalizeRecord)
  then show ?thesis
    by (simp add: loadResults_def normalizeResults_records keep_normalizeRecord)
qed

theorem stored_record_survival_witness:
  "loadResults (Array (map Record
       [[(''id'', Str ''a''), (''Lat'', Str ''5''), (''lon'', Num (Fin 2))],
        [(''HPI'', Str ''7.5'')],
        [(''id'', Str []), (''hpi'', Num (Fin 1))],
        [(''id'', Str ''q''), (''lat'', Num (Fin 3)), (''hpi'', Str ''n/a'')]]))
     = Inr [[(''id'', Str ''a''), (''Lat'', Str ''5''), (''lon'', Num (Fin 2)),
             (''latitude'', Num (Fin 5)), (''longitude'', Num (Fin 2)), (''hpi'', Null),
             (''hei'', Null), (''cd'', Null), (''category'', Str ''Unknown'')],
            [(''HPI'', Str ''7.5''), (''id'', Str ''sample-2''), (''latitude'', Null),
             (''longitude'', Null), (''hpi'', Num (Fin (15 / 2))), (''hei'', Null),
             (''cd'', Null), (''category'', Str ''Unknown'')]]"
proof -
  have "map (\<lambda>(r, i). normalizeRecord r i)
          (filter (\<lambda>(r, i). survives r i)
             (zip [[(''id'', Str ''a''), (''Lat'', Str ''5''), (''lon'', Num (Fin 2))],
                   [(''HPI'', Str ''7.5'')],
                   [(''id'', Str []), (''hpi'', Num (Fin 1))],
                   [(''id'', Str ''q''), (''lat'', Num (Fin 3)), (''hpi'', Str ''n/a'')]]
                  [0 ..< length [[(''id'', Str ''a''), (''Lat'', Str ''5''), (''lon'', Num (Fin 2))],
                                 [(''HPI'', Str ''7.5'')],
                                 [(''id'', Str []), (''hpi'', Num (Fin 1))],
                                 [(''id'', Str ''q''), (''lat'', Num (Fin 3)),
                                  (''hpi'', Str ''n/a'')]]]))
        = [[(''id'', Str ''a''), (''Lat'', Str ''5''), (''lon'', Num (Fin 2)),
            (''latitude'', Num (Fin 5)), (''longitude'', Num (Fin 2)), (''hpi'', Null),
            (''hei'', Null), (''cd'', Null), (''category'', Str ''Unknown'')],
           [(''HPI'', Str ''7.5''), (''id'', Str ''sample-2''), (''latitude'', Null),
            (''longitude'', Null), (''hpi'', Num (Fin (15 / 2))), (''hei'', Null),
            (''cd'', Null), (''category'', Str ''Unknown'')]]"
    by code_simp
  then show ?thesis
    by (simp only: stored_record_survival [THEN conjunct2])
qed

text \<open>
  Normalizing a normalized record: a canonical field that holds a number is found first
  and read back unchanged; one that holds \<open>null\<close> is skipped, and the other keys, which
  normalization did not touch, give no number now as they gave none before.
\<close>

lemma pickNumericAlt_eq: "pickNumericAlt obj keys = pickNumber_results obj keys"
  by (induction keys) (simp_all add: Let_def)

lemma pick_cong:
  assumes "\<forall>k \<in> set keys. map_of r' k = map_of r k"
  shows "pickNumber_results r' keys = pickNumber_results r keys"
  using assms by (induction keys) (simp_all add: hasOwn_def getProp_def Let_def)

lemma pick_not_NaN: "pickNumber_results r keys \<noteq> Some NaN"
  by (induction keys) (simp_all add: Let_def)

lemma pick_tail_None:
  "pickNumber_results r (k # keys) = None \<Longrightarrow> pickNumber_results r keys = None"
  by (simp add: Let_def split: if_splits)

lemma pick_again:
  assumes h: "map_of r' k0 = Some (numberOrNull (pickNumber_results r (k0 # alts)))"
    and a: "\<forall>k \<in> set alts. map_of r' k = map_of r k"
  shows "pickNumber_results r' (k0 # alts) = pickNumber_results r (k0 # alts)"
proof (cases "pickNumber_results r (k0 # alts)")
  case None
  then have "pickNumber_results r alts = None" by (rule pick_tail_None)
  with pick_cong [OF a] have "pickNumber_results r' alts = None" by simp
  with h None show ?thesis
    by (simp add: hasOwn_def getProp_def numberOrNull_def)
next
  case (Some n)
  with pick_not_NaN [of r "k0 # alts"] have "n \<noteq> NaN" by auto
  with h Some show ?thesis
    by (simp add: hasOwn_def getProp_def numberOrNull_def)
qed

lemma map_of_normalizeRecord_other:
  assumes "k \<notin> {''id'', ''latitude'', ''longitude'', ''hpi'', ''hei'', ''cd'', ''category''}"
  shows "map_of (normalizeRecord r idx) k = map_of r k"
  using assms by (simp add: normalizeRecord_def Let_def update_conv')

lemma map_of_normalizeRecord_fields:
  "map_of (normalizeRecord r idx) ''latitude'' = Some (numberOrNull (pickNumber_results r latKeys))"
  "map_of (normalizeRecord r idx) ''longitude'' = Some (numberOrNull (pickNumber_results r lonKeys))"
  "map_of (normalizeRecord r idx) ''hpi''
     = Some (numberOrNull (pickNumericAlt r [''hpi'', ''HPI'', ''hpi_value'', ''hpiValue'', ''hpi_val'']))"
  "map_of (normalizeRecord r idx) ''hei''
     = Some (numberOrNull (pickNumericAlt r [''hei'', ''HEI'', ''hei_value'', ''heiValue'']))"
  "map_of (normalizeRecord r idx) ''cd''
     = Some (numberOrNull (pickNumericAlt r [''cd'', ''Cd'', ''contamination_degree'',
                                             ''contaminationDegree'']))"
  by (simp_all add: normalizeRecord_def Let_def update_conv')

lemma numericFields_normalizeRecord_again:
  "numericFields (normalizeRecord (normalizeRecord r i) j) = numericFields (normalizeRecord r i)"
proof -
  let ?r = "normalizeRecord r i"
  have lat: "pickNumber_results ?r latKeys = pickNumber_results r latKeys"
    unfolding latKeys_def
    by (rule pick_again)
      (simp_all add: map_of_normalizeRecord_fields [unfolded latKeys_def]
        map_of_normalizeRecord_other)
  have lon: "pickNumber_results ?r lonKeys = pickNumber_results r lonKeys"
    unfolding lonKeys_def
    by (rule pick_again)
      (simp_all add: map_of_normalizeRecord_fields [unfolded lonKeys_def]
        map_of_normalizeRecord_other)
  have h: "pickNumber_results ?r [''hpi'', ''HPI'', ''hpi_value'', ''hpiValue'', ''hpi_val'']
             = pickNumber_results r [''hpi'', ''HPI'', ''hpi_value'', ''hpiValue'', ''hpi_val'']"
    by (rule pick_again)
      (simp_all add: map_of_normalizeRecord_fields [unfolded pickNumericAlt_eq]
        map_of_normalizeRecord_other)
  have e: "pickNumber_results ?r [''hei'', ''HEI'', ''hei_value'', ''heiValue'']
             = pickNumber_results r [''hei'', ''HEI'', ''hei_value'', ''heiValue'']"
    by (rule pick_again)
      (simp_all add: map_of_normalizeRecord_fields [unfolded pickNumericAlt_eq]
        map_of_normalizeRecord_other)
  have c: "pickNumber_results ?r [''cd'', ''Cd'', ''contamination_degree'', ''contaminationDegree'']
             = pickNumber_results r [''cd'', ''Cd'', ''contamination_degree'',
                                     ''contaminationDegree'']"
    by (rule pick_again)
      (simp_all add: map_of_normalizeRecord_fields [unfolded pickNumericAlt_eq]
        map_of_normalizeRecord_other)
  show ?thesis
    by (simp only: numericFields_def normalizeRecord_fields pickNumericAlt_eq lat lon h e c)
qed

text \<open>
  Claim C9: normalizing a sequence of records and then normalizing the output again both
  succeed, and the second pass leaves the five numeric fields of every record as the
  first pass set them.
\<close>

theorem normalizeResults_idempotent_numeric:
  "\<exists>once twice.
     normalizeResults (map Record raw) = Inr once \<and>
     normalizeResults (map Record once) = Inr twice \<and>
     map numericFields twice = map numericFields once"
proof -
  let ?once = "map (\<lambda>(r, i). normalizeRecord r i) (zip raw [0 ..< length raw])"
  let ?twice = "map (\<lambda>(r, i). normalizeRecord r i) (zip ?once [0 ..< length ?once])"
  have "map numericFields ?twice = map numericFields ?once"
    by (rule nth_equalityI) (simp_all add: numericFields_normalizeRecord_again)
  then show ?thesis
    using normalizeResults_records [of raw] normalizeResults_records [of ?once] by blast
qed

end
